theory Spec2Isabelle
  imports Main "HOL-Library.Word"
begin

unbundle bit_operations_syntax

section \<open>JavaScript values used by the ledger and the cryptographic utilities\<close>

text \<open>
  Numbers of the source that hold counts, identifiers, timestamps and bytes are integers
  and are modelled as \<^typ>\<open>int\<close>; list positions and lengths are \<^typ>\<open>nat\<close>. Numbers that
  are not integers (fractions, \<open>NaN\<close>, the infinities) have no counterpart here. A
  typed-array store keeps the value modulo 256. The value \<open>undefined\<close>, which a typed-array
  read out of range returns, is a value of its own. Exceptions are values of type \<open>exn\<close>:
  \<open>Error msg\<close> is \<open>throw new Error(msg)\<close>, \<open>RangeError\<close> is what \<open>String.prototype.repeat\<close>
  raises, \<open>TypeError\<close> is a property read on \<open>undefined\<close>.
\<close>

datatype exn = Error string | RangeError | TypeError

datatype jsval = Num int | Undefined

subsection \<open>Numbers as double-precision values\<close>

text \<open>
  A number of the source is a double. The integers among the doubles are the integers with
  at most 53 significant bits; \<open>toDouble v\<close> is the double nearest to the integer \<open>v\<close>, a tie
  going to the one with an even 53-bit significand (an integer so large that it rounds to
  \<open>Infinity\<close> is outside the integers of the model). An integer \<open>x\<close> is a number of the source
  when \<open>toDouble x = x\<close>; every integer up to \<open>2\<^sup>5\<^sup>3\<close> in absolute value is one.
\<close>

function bitLength :: "int \<Rightarrow> nat" where
  "bitLength n = (if n \<le> 0 then 0 else Suc (bitLength (n div 2)))"
  by pat_completeness auto
termination
  by (relation "measure nat") auto

declare bitLength.simps [simp del]

definition roundAbs :: "int \<Rightarrow> int" where
  "roundAbs v =
     (let b = bitLength v
      in if b \<le> 53 then v
         else (let e = b - 53;
                   q = v div 2 ^ e;
                   r = v mod 2 ^ e;
                   h = 2 ^ (e - 1)
               in (if r > h \<or> (r = h \<and> odd q) then q + 1 else q) * 2 ^ e))"

definition toDouble :: "int \<Rightarrow> int" where
  "toDouble v = (if v < 0 then - roundAbs (- v) else roundAbs v)"

text \<open>The sum and the difference of two numbers are the doubles nearest to the exact ones.\<close>

definition jsAdd :: "int \<Rightarrow> int \<Rightarrow> int" where
  "jsAdd a b = toDouble (a + b)"

definition jsSub :: "int \<Rightarrow> int \<Rightarrow> int" where
  "jsSub a b = toDouble (a - b)"

subsection \<open>Numbers as text\<close>

text \<open>
  \<open>toStringRadix r n\<close> is the integer \<open>n\<close> in plain digits of radix \<open>r\<close>. It is what
  \<open>b.toString(16)\<close> gives for a byte, and the decimal expansion of an integer.
\<close>

definition digitChar :: "int \<Rightarrow> char" where
  "digitChar d = ''0123456789abcdef'' ! nat d"

function toStringRadix :: "int \<Rightarrow> int \<Rightarrow> string" where
  "toStringRadix r n =
     (if n < 0 then CHR ''-'' # toStringRadix r (- n)
      else if n < r \<or> r < 2 then [digitChar n]
      else toStringRadix r (n div r) @ [digitChar (n mod r)])"
  by pat_completeness auto
termination
proof (relation "measure (\<lambda>(r, n). if n < 0 then nat (- n) + 1 else nat n)")
  show "wf (measure (\<lambda>(r, n). if n < 0 then nat (- n) + 1 else nat n))"
    by simp
next
  fix r n :: int
  assume "n < 0"
  then show "((r, - n), (r, n)) \<in> measure (\<lambda>(r, n). if n < 0 then nat (- n) + 1 else nat n)"
    by simp
next
  fix r n :: int
  assume a: "\<not> n < 0" "\<not> (n < r \<or> r < 2)"
  then have "n div r < n"
    by (simp add: int_div_less_self)
  moreover from a have "0 \<le> n div r"
    by (simp add: pos_imp_zdiv_nonneg_iff)
  ultimately show "((r, n div r), (r, n)) \<in> measure (\<lambda>(r, n). if n < 0 then nat (- n) + 1 else nat n)"
    using a by simp
qed

declare toStringRadix.simps [simp del]

text \<open>
  \<open>Number.prototype.toString()\<close> in radix 10, which is also how \<open>JSON.stringify\<close> and a
  template literal print a number. It prints the shortest decimal \<open>s \<times> 10\<^sup>j\<close> that reads
  back as the same double (of several shortest ones the closest, of two equally close the
  one with even \<open>s\<close>): in plain digits when it is below \<open>10\<^sup>2\<^sup>1\<close>, and as
  \<open>d.ddde+n\<close> from there on. Up to \<open>2\<^sup>5\<^sup>3\<close> every integer is a double and its shortest decimal
  is its own expansion. \<open>candidates x\<close> lists, for 1, 2, ... significant digits, the two
  decimals of that many digits that enclose \<open>x\<close>, the preferred one first.
\<close>

definition candidates :: "int \<Rightarrow> int list" where
  "candidates x =
     concat (map (\<lambda>j. let p = 10 ^ j;
                          lo = (x div p) * p;
                          hi = lo + p
                      in if x - lo < hi - x \<or> (x - lo = hi - x \<and> even (x div p))
                         then [lo, hi] else [hi, lo])
               (rev [0..<length (toStringRadix 10 x)]))"

definition shortest :: "int \<Rightarrow> int" where
  "shortest x = (case List.find (\<lambda>v. toDouble v = x) (candidates x) of Some v \<Rightarrow> v | None \<Rightarrow> x)"

definition render :: "int \<Rightarrow> string" where
  "render v =
     (if v < 1000000000000000000000 then toStringRadix 10 v
      else (let ds = toStringRadix 10 v;
                sig = rev (dropWhile (\<lambda>c. c = CHR ''0'') (rev ds));
                ex = ''e+'' @ toStringRadix 10 (int (length ds) - 1)
            in if length sig = 1 then sig @ ex else hd sig # CHR ''.'' # tl sig @ ex))"

definition numberToString :: "int \<Rightarrow> string" where
  "numberToString x =
     (let a = \<bar>x\<bar>;
          t = (if a \<le> 9007199254740992 then toStringRadix 10 a else render (shortest a))
      in if x < 0 then CHR ''-'' # t else t)"

definition padStart :: "nat \<Rightarrow> char \<Rightarrow> string \<Rightarrow> string" where
  "padStart n c s = replicate (n - length s) c @ s"

text \<open>
  \<open>String.prototype.repeat\<close> raises a \<open>RangeError\<close> on a negative count, and also when the
  result would be longer than the longest string the engine builds. That length depends on
  the engine; it is the argument \<open>maxLen\<close> here and in every function that repeats a string.
\<close>

definition repeat :: "int \<Rightarrow> string \<Rightarrow> int \<Rightarrow> exn + string" where
  "repeat maxLen s count =
     (if count < 0 then Inl RangeError
      else if int (length s) * count > maxLen then Inl RangeError
      else Inr (concat (replicate (nat count) s)))"

definition startsWith :: "string \<Rightarrow> string \<Rightarrow> bool" where
  "startsWith s t = (take (length t) s = t)"

text \<open>\<open>bufferToHex\<close>: every byte as two lower-case hexadecimal digits.\<close>

definition bufferToHex :: "int list \<Rightarrow> string" where
  "bufferToHex buffer = concat (map (\<lambda>b. padStart 2 CHR ''0'' (toStringRadix 16 b)) buffer)"

text \<open>
  \<open>stringToBuffer\<close>: the UTF-8 encoding of \<open>TextEncoder\<close>. A \<^typ>\<open>char\<close> is a code point
  below 256, so a character is one byte below 128 and two bytes from 128 on.
\<close>

definition utf8 :: "char \<Rightarrow> int list" where
  "utf8 c = (let n = of_char c in if n < 128 then [n] else [192 + n div 64, 128 + n mod 64])"

definition stringToBuffer :: "string \<Rightarrow> int list" where
  "stringToBuffer str = concat (map utf8 str)"

section \<open>SHA-256\<close>

text \<open>
  \<open>crypto.subtle.digest('SHA-256', buffer)\<close> is the platform's SHA-256 (FIPS 180-4). It is
  written out here on 32-bit values held as integers, every addition reduced modulo
  \<open>2 ^ 32\<close>, so that a digest of a concrete message can be computed. The round constants
  and the initial registers are given in decimal.
\<close>

definition add32 :: "int \<Rightarrow> int \<Rightarrow> int" where
  "add32 a b = (a + b) mod 4294967296"

definition rotr :: "nat \<Rightarrow> int \<Rightarrow> int" where
  "rotr n w = w div 2 ^ n + (w mod 2 ^ n) * 2 ^ (32 - n)"

definition K256 :: "int list" where
  "K256 =
    [1116352408, 1899447441, 3049323471, 3921009573, 961987163, 1508970993, 2453635748, 2870763221,
     3624381080, 310598401, 607225278, 1426881987, 1925078388, 2162078206, 2614888103, 3248222580,
     3835390401, 4022224774, 264347078, 604807628, 770255983, 1249150122, 1555081692, 1996064986,
     2554220882, 2821834349, 2952996808, 3210313671, 3336571891, 3584528711, 113926993, 338241895,
     666307205, 773529912, 1294757372, 1396182291, 1695183700, 1986661051, 2177026350, 2456956037,
     2730485921, 2820302411, 3259730800, 3345764771, 3516065817, 3600352804, 4094571909, 275423344,
     430227734, 506948616, 659060556, 883997877, 958139571, 1322822218, 1537002063, 1747873779,
     1955562222, 2024104815, 2227730452, 2361852424, 2428436474, 2756734187, 3204031479, 3329325298]"

type_synonym regs = "int \<times> int \<times> int \<times> int \<times> int \<times> int \<times> int \<times> int"

definition H256 :: regs where
  "H256 = (1779033703, 3144134277, 1013904242, 2773480762,
           1359893119, 2600822924, 528734635, 1541459225)"

definition ssig0 :: "int \<Rightarrow> int" where
  "ssig0 w = rotr 7 w XOR rotr 18 w XOR (w div 8)"

definition ssig1 :: "int \<Rightarrow> int" where
  "ssig1 w = rotr 17 w XOR rotr 19 w XOR (w div 1024)"

definition bsig0 :: "int \<Rightarrow> int" where
  "bsig0 w = rotr 2 w XOR rotr 13 w XOR rotr 22 w"

definition bsig1 :: "int \<Rightarrow> int" where
  "bsig1 w = rotr 6 w XOR rotr 11 w XOR rotr 25 w"

definition ch :: "int \<Rightarrow> int \<Rightarrow> int \<Rightarrow> int" where
  "ch e f g = (e AND f) XOR ((4294967295 - e) AND g)"

definition maj :: "int \<Rightarrow> int \<Rightarrow> int \<Rightarrow> int" where
  "maj a b c = (a AND b) XOR (a AND c) XOR (b AND c)"

text \<open>
  The message schedule is kept as a window of sixteen words: the head is the word of the
  current round, and the word sixteen rounds ahead is appended.
\<close>

fun nextWindow :: "int list \<Rightarrow> int list" where
  "nextWindow (w0 # w1 # ws) =
     w1 # ws @ [add32 (add32 (add32 (ssig1 (ws ! 12)) (ws ! 7)) (ssig0 w1)) w0]"
| "nextWindow ws = ws"

fun shuffle :: "regs \<Rightarrow> int \<Rightarrow> int \<Rightarrow> regs" where
  "shuffle (a, b, c, d, e, f, g, h) t1 t2 = (add32 t1 t2, a, b, c, add32 d t1, e, f, g)"

fun round256 :: "regs \<Rightarrow> int \<Rightarrow> int \<Rightarrow> regs" where
  "round256 (a, b, c, d, e, f, g, h) k w =
     shuffle (a, b, c, d, e, f, g, h)
       (add32 (add32 (add32 (add32 h (bsig1 e)) (ch e f g)) k) w)
       (add32 (bsig0 a) (maj a b c))"

fun rounds :: "int list \<Rightarrow> regs \<Rightarrow> int list \<Rightarrow> regs" where
  "rounds [] st w = st"
| "rounds (k # ks) st w = rounds ks (round256 st k (hd w)) (nextWindow w)"

fun addRegs :: "regs \<Rightarrow> regs \<Rightarrow> regs" where
  "addRegs (a, b, c, d, e, f, g, h) (a', b', c', d', e', f', g', h') =
     (add32 a a', add32 b b', add32 c c', add32 d d',
      add32 e e', add32 f f', add32 g g', add32 h h')"

definition compress :: "regs \<Rightarrow> int list \<Rightarrow> regs" where
  "compress st blk = addRegs st (rounds K256 st blk)"

fun be32 :: "int list \<Rightarrow> int list" where
  "be32 (a # b # c # d # r) = (((a * 256 + b) * 256 + c) * 256 + d) # be32 r"
| "be32 _ = []"

definition pad :: "int list \<Rightarrow> int list" where
  "pad m = m @ [128] @ replicate ((119 - length m mod 64) mod 64) 0
             @ map (\<lambda>i. (8 * int (length m) div 256 ^ (7 - i)) mod 256) [0..<8]"

fun chunk16 :: "int list \<Rightarrow> int list list" where
  "chunk16 ws = (if length ws < 16 then [] else take 16 ws # chunk16 (drop 16 ws))"

declare chunk16.simps [simp del]

definition wordBytes :: "int \<Rightarrow> int list" where
  "wordBytes w = [w div 16777216 mod 256, w div 65536 mod 256, w div 256 mod 256, w mod 256]"

fun regsBytes :: "regs \<Rightarrow> int list" where
  "regsBytes (a, b, c, d, e, f, g, h) =
     wordBytes a @ wordBytes b @ wordBytes c @ wordBytes d @
     wordBytes e @ wordBytes f @ wordBytes g @ wordBytes h"

definition digest :: "int list \<Rightarrow> int list" where
  "digest m = regsBytes (foldl compress H256 (chunk16 (be32 (pad m))))"

text \<open>\<open>sha256\<close>: the digest of the UTF-8 bytes of the text, in hexadecimal.\<close>

definition sha256 :: "string \<Rightarrow> string" where
  "sha256 data = bufferToHex (digest (stringToBuffer data))"

section \<open>Proof of work\<close>

text \<open>
  \<open>generateNonce\<close> reads the random source; the successive nonces it returns are one
  argument, \<open>nonces\<close>, with \<open>nonces i\<close> the nonce of draw \<open>i\<close> (from 0). \<open>mineLoop\<close> is
  the \<open>while (true)\<close> loop of \<open>mineBlock\<close>, entered with \<open>count\<close> attempts made; yielding to
  the scheduler every hundredth attempt has no effect on what it returns. A \<open>difficulty\<close>
  that the caller leaves out is 4 in the source; here it is always given.
\<close>

record Mined =
  mined_nonce :: string
  mined_hash :: string
  attempts :: int

function mineLoop :: "string \<Rightarrow> string \<Rightarrow> string \<Rightarrow> (nat \<Rightarrow> string) \<Rightarrow> nat \<Rightarrow> Mined" where
  "mineLoop data previousHash target nonces count =
     (let count' = count + 1;
          nonce = nonces count;
          hash = sha256 (data @ previousHash @ nonce)
      in if startsWith hash target
         then \<lparr>mined_nonce = nonce, mined_hash = hash, attempts = int count'\<rparr>
         else if count' > 10000
         then \<lparr>mined_nonce = nonce, mined_hash = hash, attempts = int count'\<rparr>
         else mineLoop data previousHash target nonces count')"
  by pat_completeness auto
termination
  by (relation "measure (\<lambda>(data, previousHash, target, nonces, count). 10001 - count)") auto

declare mineLoop.simps [simp del]

definition mineBlock ::
  "int \<Rightarrow> string \<Rightarrow> string \<Rightarrow> int \<Rightarrow> (nat \<Rightarrow> string) \<Rightarrow> exn + Mined" where
  "mineBlock maxLen data previousHash difficulty nonces =
     (case repeat maxLen ''0'' difficulty of
        Inl e \<Rightarrow> Inl e
      | Inr target \<Rightarrow> Inr (mineLoop data previousHash target nonces 0))"

definition verifyProofOfWork :: "int \<Rightarrow> string \<Rightarrow> int \<Rightarrow> exn + bool" where
  "verifyProofOfWork maxLen hash difficulty =
     (case repeat maxLen ''0'' difficulty of
        Inl e \<Rightarrow> Inl e
      | Inr target \<Rightarrow> Inr (startsWith hash target))"

section \<open>GF(256) arithmetic\<close>

text \<open>
  \<open>initGF256\<close> fills the two tables once: 255 steps from \<open>x = 1\<close>, each storing
  \<open>EXP_TABLE[i] = x\<close> and \<open>LOG_TABLE[x] = i\<close> and then doubling \<open>x\<close> with the reduction
  by \<open>0x11b\<close>; at the end \<open>EXP_TABLE[255] = EXP_TABLE[0]\<close>.
\<close>

fun initStep :: "int \<times> int list \<times> int list \<Rightarrow> nat \<Rightarrow> int \<times> int list \<times> int list" where
  "initStep (x, EXP, LOG) i =
     (let EXP' = EXP[i := x mod 256];
          LOG' = LOG[nat x := int i mod 256];
          x1 = push_bit 1 x;
          x2 = (if x1 AND 0x100 \<noteq> 0 then x1 XOR 0x11b else x1)
      in (x2, EXP', LOG'))"

definition initGF256 :: "int list \<times> int list" where
  "initGF256 =
     (case foldl initStep (1, replicate 256 0, replicate 256 0) [0..<255] of
        (x, EXP, LOG) \<Rightarrow> (EXP[255 := EXP ! 0], LOG))"

definition EXP_TABLE :: "int list" where
  "EXP_TABLE = fst initGF256"

definition LOG_TABLE :: "int list" where
  "LOG_TABLE = snd initGF256"

text \<open>
  A typed-array read: the element when the index is an integer inside the array,
  \<open>undefined\<close> otherwise (also when the index itself is \<open>undefined\<close> or not a number).
\<close>

definition typedGet :: "int list \<Rightarrow> jsval \<Rightarrow> jsval" where
  "typedGet t v =
     (case v of
        Num i \<Rightarrow> if 0 \<le> i \<and> nat i < length t then Num (t ! nat i) else Undefined
      | Undefined \<Rightarrow> Undefined)"

text \<open>The remainder operator \<open>%\<close> of the source truncates towards zero.\<close>

definition jsRem :: "int \<Rightarrow> int \<Rightarrow> int" where
  "jsRem a b = sgn a * (\<bar>a\<bar> mod \<bar>b\<bar>)"

text \<open>
  \<open>^\<close> works on the 32-bit two's complement values of its operands; an \<open>undefined\<close>
  operand counts as 0.
\<close>

definition jsXor :: "int \<Rightarrow> int \<Rightarrow> int" where
  "jsXor a b = sint ((word_of_int a :: 32 word) XOR word_of_int b)"

definition xorAssign :: "int \<Rightarrow> jsval \<Rightarrow> int" where
  "xorAssign a b = jsXor a (case b of Num m \<Rightarrow> m | Undefined \<Rightarrow> 0)"

definition gfMul :: "jsval \<Rightarrow> jsval \<Rightarrow> jsval" where
  "gfMul a b =
     (if a = Num 0 \<or> b = Num 0 then Num 0
      else case (typedGet LOG_TABLE a, typedGet LOG_TABLE b) of
             (Num la, Num lb) \<Rightarrow> typedGet EXP_TABLE (Num (jsRem (la + lb) 255))
           | _ \<Rightarrow> Undefined)"

definition gfDiv :: "jsval \<Rightarrow> jsval \<Rightarrow> exn + jsval" where
  "gfDiv a b =
     (if b = Num 0 then Inl (Error ''Division by zero'')
      else if a = Num 0 then Inr (Num 0)
      else Inr (case (typedGet LOG_TABLE a, typedGet LOG_TABLE b) of
                  (Num la, Num lb) \<Rightarrow> typedGet EXP_TABLE (Num (jsRem (la - lb + 255) 255))
                | _ \<Rightarrow> Undefined))"

section \<open>Shamir's secret sharing\<close>

text \<open>
  A share is \<open>{ x: number; y: Uint8Array }\<close>. The random bytes that \<open>shamirSplit\<close> draws
  with \<open>generateRandomBytes(1)[0]\<close> are the argument \<open>rnd\<close>, \<open>rnd i\<close> being draw \<open>i\<close>; the
  draws are used in the order of the source: \<open>k - 1\<close> for each byte of the secret. The
  fields \<open>x\<close> and \<open>y\<close> of a share are \<open>share_x\<close> and \<open>share_y\<close>. Each \<open>for\<close> loop over an
  index range is a fold over that range, from the innermost (\<open>polyStep\<close>, \<open>lagrangeStep\<close>)
  outwards; in \<open>shamirCombine\<close> the folds carry the exception of \<open>gfDiv\<close>, which ends every
  loop.
\<close>

record Share =
  share_x :: int
  share_y :: "int list"

fun polyStep :: "int list \<Rightarrow> int \<Rightarrow> int \<times> jsval \<Rightarrow> nat \<Rightarrow> int \<times> jsval" where
  "polyStep coefficients x (y, xPow) i =
     (xorAssign y (gfMul (typedGet coefficients (Num (int i))) xPow), gfMul xPow (Num x))"

definition evalPoly :: "int list \<Rightarrow> int \<Rightarrow> int \<Rightarrow> int" where
  "evalPoly coefficients k x = fst (foldl (polyStep coefficients x) (0, Num 1) [0..<nat k])"

definition setShareByte :: "nat \<Rightarrow> int list \<Rightarrow> int \<Rightarrow> Share list \<Rightarrow> nat \<Rightarrow> Share list" where
  "setShareByte byteIdx coefficients k shares shareIdx =
     (let s = shares ! shareIdx
      in shares[shareIdx :=
           s\<lparr>share_y := (share_y s)[byteIdx := evalPoly coefficients k (share_x s) mod 256]\<rparr>])"

fun splitByte ::
  "int list \<Rightarrow> int \<Rightarrow> int \<Rightarrow> (nat \<Rightarrow> int) \<Rightarrow> Share list \<times> nat \<Rightarrow> nat \<Rightarrow> Share list \<times> nat" where
  "splitByte secret n k rnd (shares, pos) byteIdx =
     (let coefficients =
            (secret ! byteIdx) mod 256 # map (\<lambda>i. rnd (pos + i) mod 256) [0..<nat (k - 1)]
      in (foldl (setShareByte byteIdx coefficients k) shares [0..<nat n], pos + nat (k - 1)))"

definition shamirSplit :: "int list \<Rightarrow> int \<Rightarrow> int \<Rightarrow> (nat \<Rightarrow> int) \<Rightarrow> exn + Share list" where
  "shamirSplit secret n k rnd =
     (if k > n then Inl (Error ''Threshold cannot exceed total shares'')
      else if k < 2 then Inl (Error ''Threshold must be at least 2'')
      else Inr (fst (foldl (splitByte secret n k rnd)
                  (map (\<lambda>i. \<lparr>share_x = i, share_y = replicate (length secret) 0\<rparr>) [1..n], 0)
                  [0..<length secret])))"

definition lagrangeStep :: "Share list \<Rightarrow> nat \<Rightarrow> exn + jsval \<Rightarrow> nat \<Rightarrow> exn + jsval" where
  "lagrangeStep shares i acc j =
     (case acc of
        Inl e \<Rightarrow> Inl e
      | Inr lagrange \<Rightarrow>
          if i \<noteq> j
          then (let num = share_x (shares ! j);
                    den = jsXor (share_x (shares ! i)) (share_x (shares ! j))
                in case gfDiv (Num num) (Num den) of
                     Inl e \<Rightarrow> Inl e
                   | Inr q \<Rightarrow> Inr (gfMul lagrange q))
          else Inr lagrange)"

definition valueStep :: "Share list \<Rightarrow> nat \<Rightarrow> exn + int \<Rightarrow> nat \<Rightarrow> exn + int" where
  "valueStep shares byteIdx acc i =
     (case acc of
        Inl e \<Rightarrow> Inl e
      | Inr value \<Rightarrow>
          (case foldl (lagrangeStep shares i) (Inr (Num 1)) [0..<length shares] of
             Inl e \<Rightarrow> Inl e
           | Inr lagrange \<Rightarrow>
               Inr (xorAssign value
                      (gfMul (typedGet (share_y (shares ! i)) (Num (int byteIdx))) lagrange))))"

definition secretStep :: "Share list \<Rightarrow> exn + int list \<Rightarrow> nat \<Rightarrow> exn + int list" where
  "secretStep shares acc byteIdx =
     (case acc of
        Inl e \<Rightarrow> Inl e
      | Inr secret \<Rightarrow>
          (case foldl (valueStep shares byteIdx) (Inr 0) [0..<length shares] of
             Inl e \<Rightarrow> Inl e
           | Inr value \<Rightarrow> Inr (secret[byteIdx := value mod 256])))"

definition shamirCombine :: "Share list \<Rightarrow> exn + int list" where
  "shamirCombine shares =
     (if length shares < 2 then Inl (Error ''Need at least 2 shares'')
      else (let secretLength = length (share_y (shares ! 0))
            in foldl (secretStep shares) (Inr (replicate secretLength 0)) [0..<secretLength]))"

subsection \<open>The textual form of a share\<close>

text \<open>
  \<open>encodeShare\<close> prints \<open>share.y.buffer\<close>, the whole \<open>ArrayBuffer\<close> under \<open>y\<close>, of which \<open>y\<close> may
  be only a part (a view, as \<open>subarray\<close> makes one). A share given to \<open>encodeShare\<close> therefore
  carries, besides the elements \<open>share_y\<close> of \<open>y\<close>, the bytes \<open>y_buffer\<close> of that buffer and the
  offset \<open>y_byteOffset\<close> of \<open>y\<close> in it; \<open>viewOnBuffer\<close> says that the three fit together. \<open>y\<close>
  spans its buffer when \<open>y_buffer\<close> is \<open>share_y\<close>, as for every array made by
  \<open>new Uint8Array(length)\<close> or \<open>new Uint8Array(list)\<close>.
\<close>

record BufferShare = Share +
  y_buffer :: "int list"
  y_byteOffset :: nat

definition viewOnBuffer :: "BufferShare \<Rightarrow> bool" where
  "viewOnBuffer s =
     (y_byteOffset s + length (share_y s) \<le> length (y_buffer s) \<and>
      share_y s = take (length (share_y s)) (drop (y_byteOffset s) (y_buffer s)) \<and>
      list_all (\<lambda>b. 0 \<le> b \<and> b < 256) (y_buffer s))"

definition encodeShare :: "BufferShare \<Rightarrow> string" where
  "encodeShare share =
     ''SHARD-'' @ padStart 2 CHR ''0'' (numberToString (share_x share)) @ '':'' @
     bufferToHex (y_buffer share)"

text \<open>
  \<open>decodeShare\<close> matches \<open>/^SHARD-(\d+):([a-f0-9]+)$/i\<close>: the six characters of the tag in
  either case, one or more decimal digits, a colon, and one or more hexadecimal digits in
  either case up to the end of the text. \<open>parseInt\<close> reads a text of digits as the double
  nearest to its value, every digit counted (the standard lets an engine take the decimal
  digits after the twentieth for zeros). The second group is cut into chunks of two
  characters (the last may be a single one), each read with \<open>parseInt(chunk, 16)\<close>, and the
  list of these bytes makes a new array, which spans its own buffer.
\<close>

definition toUpper :: "char \<Rightarrow> char" where
  "toUpper c = (let n = of_char c :: nat in if 97 \<le> n \<and> n \<le> 122 then char_of (n - 32) else c)"

definition isDigit :: "char \<Rightarrow> bool" where
  "isDigit c = (c \<in> set ''0123456789'')"

definition isHexDigit :: "char \<Rightarrow> bool" where
  "isHexDigit c = (c \<in> set ''0123456789abcdefABCDEF'')"

definition digitVal :: "char \<Rightarrow> int" where
  "digitVal c =
     (let n = of_char c :: int
      in if 48 \<le> n \<and> n \<le> 57 then n - 48
         else if 97 \<le> n \<and> n \<le> 102 then n - 87
         else n - 55)"

definition digitsValue :: "int \<Rightarrow> string \<Rightarrow> int" where
  "digitsValue radix s = foldl (\<lambda>acc c. acc * radix + digitVal c) 0 s"

definition parseInt :: "int \<Rightarrow> string \<Rightarrow> int" where
  "parseInt radix s = toDouble (digitsValue radix s)"

fun chunks2 :: "string \<Rightarrow> string list" where
  "chunks2 (a # b # r) = [a, b] # chunks2 r"
| "chunks2 [a] = [[a]]"
| "chunks2 [] = []"

definition decodeShare :: "string \<Rightarrow> exn + BufferShare" where
  "decodeShare encoded =
     (let tag = take 6 encoded;
          digits = takeWhile isDigit (drop 6 encoded);
          rest = dropWhile isDigit (drop 6 encoded)
      in if map toUpper tag = ''SHARD-'' \<and> digits \<noteq> [] \<and> rest \<noteq> [] \<and> hd rest = CHR '':''
            \<and> tl rest \<noteq> [] \<and> list_all isHexDigit (tl rest)
         then (let bytes = map (parseInt 16) (chunks2 (tl rest))
               in Inr \<lparr>share_x = parseInt 10 digits, share_y = bytes,
                        y_buffer = bytes, y_byteOffset = 0\<rparr>)
         else Inl (Error ''Invalid share format''))"

section \<open>The ledger\<close>

record Block =
  index :: int
  timestamp :: int
  encryptedVote :: string
  voterHash :: string
  previousHash :: string
  nonce :: string
  hash :: string
  difficulty :: int

record BlockchainState =
  chain :: "Block list"
  pendingVotes :: "string \<rightharpoonup> Block"
  isValid :: bool
  lastValidated :: int

definition GENESIS_BLOCK :: Block where
  "GENESIS_BLOCK =
     \<lparr>index = 0, timestamp = 1700000000000, encryptedVote = ''GENESIS'',
      voterHash = replicate 64 CHR ''0'', previousHash = replicate 64 CHR ''0'',
      nonce = replicate 32 CHR ''0'', hash = ''GENESIS_HASH_ELECTORAL_COMMISSION_2024'',
      difficulty = 4\<rparr>"

text \<open>\<open>Date.now()\<close> is an argument wherever the source reads the clock.\<close>

definition createBlockchain :: "int \<Rightarrow> BlockchainState" where
  "createBlockchain now =
     \<lparr>chain = [GENESIS_BLOCK], pendingVotes = Map.empty, isValid = True, lastValidated = now\<rparr>"

subsection \<open>\<open>JSON.stringify\<close> of the two objects the ledger serialises\<close>

text \<open>
  A string is quoted, with a backslash before a quote or a backslash, the short escapes for
  backspace, tab, line feed, form feed and carriage return, and \<open>\u00XX\<close> for the other
  characters below 32. A number is printed as \<open>toString()\<close> prints it. An object is its
  members in the order they were written, separated by commas.
\<close>

definition jsonEscape :: "char \<Rightarrow> string" where
  "jsonEscape c =
     (let n = of_char c :: int
      in if n = 34 then [CHR 0x5C, CHR 0x22]
         else if n = 92 then [CHR 0x5C, CHR 0x5C]
         else if n = 8 then [CHR 0x5C, CHR ''b'']
         else if n = 9 then [CHR 0x5C, CHR ''t'']
         else if n = 10 then [CHR 0x5C, CHR ''n'']
         else if n = 12 then [CHR 0x5C, CHR ''f'']
         else if n = 13 then [CHR 0x5C, CHR ''r'']
         else if n < 32 then [CHR 0x5C, CHR ''u''] @ padStart 4 CHR ''0'' (toStringRadix 16 n)
         else [c])"

definition jsonString :: "string \<Rightarrow> string" where
  "jsonString s = [CHR 0x22] @ concat (map jsonEscape s) @ [CHR 0x22]"

definition jsonNumber :: "int \<Rightarrow> string" where
  "jsonNumber n = numberToString n"

fun jsonMembers :: "(string \<times> string) list \<Rightarrow> string" where
  "jsonMembers [] = []"
| "jsonMembers [(k, v)] = jsonString k @ '':'' @ v"
| "jsonMembers ((k, v) # m # ms) = jsonString k @ '':'' @ v @ '','' @ jsonMembers (m # ms)"

definition jsonObject :: "(string \<times> string) list \<Rightarrow> string" where
  "jsonObject ms = ''{'' @ jsonMembers ms @ ''}''"

text \<open>The object that \<open>calculateBlockHash\<close> serialises, and its digest.\<close>

definition calculateBlockHash :: "Block \<Rightarrow> string" where
  "calculateBlockHash b =
     sha256 (jsonObject
       [(''index'', jsonNumber (index b)),
        (''timestamp'', jsonNumber (timestamp b)),
        (''encryptedVote'', jsonString (encryptedVote b)),
        (''voterHash'', jsonString (voterHash b)),
        (''previousHash'', jsonString (previousHash b)),
        (''nonce'', jsonString (nonce b))])"

text \<open>\<open>JSON.stringify(blockData)\<close> in \<open>addVote\<close>: the block without \<open>nonce\<close> and \<open>hash\<close>.\<close>

definition blockDataJson :: "int \<Rightarrow> int \<Rightarrow> string \<Rightarrow> string \<Rightarrow> string \<Rightarrow> int \<Rightarrow> string" where
  "blockDataJson i t ev vh ph d =
     jsonObject
       [(''index'', jsonNumber i),
        (''timestamp'', jsonNumber t),
        (''encryptedVote'', jsonString ev),
        (''voterHash'', jsonString vh),
        (''previousHash'', jsonString ph),
        (''difficulty'', jsonNumber d)]"

subsection \<open>\<open>addVote\<close>\<close>

text \<open>
  \<open>addVote\<close> reads the clock four times, in this order: \<open>startTime\<close>, the block's
  \<open>timestamp\<close>, the end of mining, and \<open>lastValidated\<close>; \<open>clock i\<close> is reading \<open>i\<close>. The
  tail \<open>state.chain[state.chain.length - 1]\<close> of an empty chain is \<open>undefined\<close>, and reading
  its \<open>index\<close> raises a \<open>TypeError\<close>.
\<close>

record AddVoteResult =
  state :: BlockchainState
  block :: Block
  miningTime :: int

definition addVote ::
  "int \<Rightarrow> BlockchainState \<Rightarrow> string \<Rightarrow> string \<Rightarrow> int \<Rightarrow> (nat \<Rightarrow> int) \<Rightarrow> (nat \<Rightarrow> string)
     \<Rightarrow> exn + AddVoteResult" where
  "addVote maxLen st ev vh d clock nonces =
     (if chain st = [] then Inl TypeError
      else
        (let startTime = clock 0;
             previousBlock = last (chain st);
             i = jsAdd (index previousBlock) 1;
             t = clock 1
         in case mineBlock maxLen (blockDataJson i t ev vh (hash previousBlock) d)
                   (hash previousBlock) d nonces of
              Inl e \<Rightarrow> Inl e
            | Inr m \<Rightarrow>
                (let newBlock =
                       \<lparr>index = i, timestamp = t, encryptedVote = ev, voterHash = vh,
                        previousHash = hash previousBlock, nonce = mined_nonce m,
                        hash = mined_hash m, difficulty = d\<rparr>
                 in Inr \<lparr>state =
                           \<lparr>chain = chain st @ [newBlock],
                            pendingVotes = (pendingVotes st)(vh \<mapsto> newBlock),
                            isValid = True,
                            lastValidated = clock 3\<rparr>,
                         block = newBlock,
                         miningTime = jsSub (clock 2) startTime\<rparr>)))"

subsection \<open>\<open>validateChain\<close>\<close>

text \<open>
  The result \<open>{ isValid, invalidBlockIndex, error }\<close> is a \<open>Verdict\<close>; its \<open>isValid\<close> is
  \<open>v_isValid\<close>, the name \<open>isValid\<close> being the state's field. \<open>invalidAt i msg\<close> is the result
  for a check that block \<open>i\<close> fails, \<open>msg\<close> being the text before the block number.
  \<open>validateFrom c i\<close> is the loop over the blocks, entered at block \<open>i\<close>.
\<close>

record Verdict =
  v_isValid :: bool
  invalidBlockIndex :: "int option"
  error :: "string option"

definition invalidAt :: "nat \<Rightarrow> string \<Rightarrow> Verdict" where
  "invalidAt i msg =
     \<lparr>v_isValid = False, invalidBlockIndex = Some (int i),
      error = Some (msg @ numberToString (int i))\<rparr>"

function validateFrom :: "int \<Rightarrow> Block list \<Rightarrow> nat \<Rightarrow> exn + Verdict" where
  "validateFrom maxLen c i =
     (if i < length c
      then (let currentBlock = c ! i;
                previousBlock = c ! (i - 1)
            in if index currentBlock \<noteq> jsAdd (index previousBlock) 1
               then Inr (invalidAt i ''Index discontinuity at block '')
               else if previousHash currentBlock \<noteq> hash previousBlock
               then Inr (invalidAt i ''Hash chain broken at block '')
               else if calculateBlockHash currentBlock \<noteq> hash currentBlock
               then Inr (invalidAt i ''Hash mismatch at block '')
               else (case verifyProofOfWork maxLen (hash currentBlock)
                            (difficulty currentBlock) of
                       Inl e \<Rightarrow> Inl e
                     | Inr ok \<Rightarrow>
                         if \<not> ok
                         then Inr (invalidAt i ''Invalid PoW at block '')
                         else if timestamp currentBlock < timestamp previousBlock
                         then Inr (invalidAt i ''Timestamp violation at block '')
                         else validateFrom maxLen c (i + 1)))
      else Inr \<lparr>v_isValid = True, invalidBlockIndex = None, error = None\<rparr>)"
  by pat_completeness auto
termination
  by (relation "measure (\<lambda>(maxLen, c, i). length c - i)") auto

declare validateFrom.simps [simp del]

definition validateChain :: "int \<Rightarrow> Block list \<Rightarrow> exn + Verdict" where
  "validateChain maxLen c =
     (if length c = 0
      then Inr \<lparr>v_isValid = False, invalidBlockIndex = Some 0, error = Some ''Empty chain''\<rparr>
      else if index (c ! 0) \<noteq> 0
      then Inr \<lparr>v_isValid = False, invalidBlockIndex = Some 0,
                error = Some ''Invalid genesis block''\<rparr>
      else validateFrom maxLen c 1)"

subsection \<open>\<open>getVoteStatistics\<close>\<close>

record VoteStatistics =
  totalBlocks :: int
  uniqueVoters :: int
  lastBlockTime :: "int option"
  chainIntegrity :: bool

definition getVoteStatistics :: "BlockchainState \<Rightarrow> exn + VoteStatistics" where
  "getVoteStatistics st =
     (if chain st = [] then Inl TypeError
      else
        (let lastBlock = last (chain st)
         in Inr \<lparr>totalBlocks = int (length (chain st)) - 1,
                 uniqueVoters = int (card (dom (pendingVotes st))),
                 lastBlockTime = (if index lastBlock > 0 then Some (timestamp lastBlock) else None),
                 chainIntegrity = isValid st\<rparr>))"

section \<open>Specification-side notions and example inputs\<close>

subsection \<open>Mining as the specification words it\<close>





subsection \<open>Validation as the specification words it\<close>






subsection \<open>Example inputs\<close>

text \<open>
  The longest string in the examples has 536870888 characters (\<open>2\<^sup>2\<^sup>9 - 24\<close>), a limit of the
  V8 engine on 64-bit machines.
\<close>

definition exampleMaxLen :: int where
  "exampleMaxLen = 536870888"

text \<open>
  One vote appended to a fresh ledger: the clock reads 1700000000000 and counts up by one
  at each reading, and the first nonce drawn gives a digest with four leading zeros, so
  mining at the default difficulty 4 succeeds at the first attempt. \<open>exampleBlock\<close> is the
  block that results. \<open>tamperedBlock\<close> is the same block with its \<open>hash\<close> replaced by the
  digest that \<open>calculateBlockHash\<close> computes for it and its \<open>difficulty\<close> set to \<open>-1\<close>;
  \<open>oversizedBlock\<close> has the \<open>difficulty\<close> \<open>2\<^sup>3\<^sup>0\<close> instead.
\<close>

definition exampleNonces :: "nat \<Rightarrow> string" where
  "exampleNonces i = ''0000000000000000000000000002cd9b''"

definition exampleClock :: "nat \<Rightarrow> int" where
  "exampleClock i = 1700000000000 + int i"

definition exampleBlock :: Block where
  "exampleBlock =
     \<lparr>index = 1, timestamp = 1700000000001, encryptedVote = ''RSA2048:deadbeef'',
      voterHash = ''voterhash1'', previousHash = ''GENESIS_HASH_ELECTORAL_COMMISSION_2024'',
      nonce = ''0000000000000000000000000002cd9b'',
      hash = ''00000b580c434cf80bdc2d0a043b58bb1f509c8f61020024f4f5885d1f362fe5'',
      difficulty = 4\<rparr>"



text \<open>Random bytes for \<open>shamirSplit\<close>: 23, 99, 23, 99, ...\<close>

definition exampleBytes :: "nat \<Rightarrow> int" where
  "exampleBytes i = [23, 99] ! (i mod 2)"

text \<open>
  Shares for \<open>encodeShare\<close>. \<open>viewShare\<close> has as \<open>y\<close> the second byte of a buffer of two
  bytes, as \<open>new Uint8Array([1, 2]).subarray(1)\<close> is; \<open>emptyViewShare\<close> has as \<open>y\<close> the empty
  view at the end of the same buffer; \<open>largeShare\<close> has \<open>x = 10\<^sup>2\<^sup>1\<close> and a \<open>y\<close> that spans
  its buffer.
\<close>

definition viewShare :: BufferShare where
  "viewShare = \<lparr>share_x = 1, share_y = [2], y_buffer = [1, 2], y_byteOffset = 1\<rparr>"

definition emptyViewShare :: BufferShare where
  "emptyViewShare = \<lparr>share_x = 1, share_y = [], y_buffer = [1, 2], y_byteOffset = 2\<rparr>"

definition largeShare :: BufferShare where
  "largeShare =
     \<lparr>share_x = 1000000000000000000000, share_y = [7], y_buffer = [7], y_byteOffset = 0\<rparr>"

subsection \<open>Sequences of votes\<close>




text \<open>The states that \<open>createBlockchain\<close> and successful calls of \<open>addVote\<close> produce.\<close>

inductive reachable :: "int \<Rightarrow> BlockchainState \<Rightarrow> bool" where
  created: "reachable maxLen (createBlockchain now)"
| added: "reachable maxLen st \<Longrightarrow> addVote maxLen st ev vh d clock nonces = Inr r \<Longrightarrow>
            reachable maxLen (state r)"

code_pred reachable .


section \<open>Properties\<close>

subsection \<open>The digest of a standard test message\<close>

lemma sha256_abc:
  "sha256 ''abc'' = ''ba7816bf8f01cfea414140de5dae2223b00361a396177a9cb410ff61f20015ad''"
  by code_simp

subsection \<open>Numbers and their text\<close>

text \<open>Every integer up to \<open>2\<^sup>5\<^sup>3\<close> in absolute value is a double.\<close>

lemma bitLength_bound: "0 \<le> v \<Longrightarrow> v < 2 ^ n \<Longrightarrow> bitLength v \<le> n"
proof (induction n arbitrary: v)
  case 0
  then have "v = 0" by simp
  then show ?case by (simp add: bitLength.simps)
next
  case (Suc n)
  from Suc.prems have "0 \<le> v div 2" "v div 2 < 2 ^ n"
    by simp_all
  then have "bitLength (v div 2) \<le> n"
    by (rule Suc.IH)
  then show ?case
    by (subst bitLength.simps) simp
qed

lemma roundAbs_small: "0 \<le> v \<Longrightarrow> v < 9007199254740992 \<Longrightarrow> roundAbs v = v"
  using bitLength_bound [of v 53] by (simp add: roundAbs_def)

lemma roundAbs_2_53: "roundAbs 9007199254740992 = 9007199254740992"
  by code_simp

lemma toDouble_exact: "\<bar>v\<bar> \<le> 9007199254740992 \<Longrightarrow> toDouble v = v"
proof -
  assume a: "\<bar>v\<bar> \<le> 9007199254740992"
  have "roundAbs \<bar>v\<bar> = \<bar>v\<bar>"
  proof (cases "\<bar>v\<bar> = 9007199254740992")
    case True
    then show ?thesis by (simp only: roundAbs_2_53)
  next
    case False
    with a show ?thesis by (intro roundAbs_small) simp_all
  qed
  then show ?thesis
    by (simp add: toDouble_def abs_if split: if_splits)
qed

lemma toDouble_10_21: "toDouble 1000000000000000000000 = 1000000000000000000000"
  by code_simp

lemma length_decimal:
  "0 \<le> x \<Longrightarrow> x < 10 ^ n \<Longrightarrow> 0 < n \<Longrightarrow> length (toStringRadix 10 x) \<le> n"
proof (induction n arbitrary: x)
  case 0
  then show ?case by simp
next
  case (Suc n)
  show ?case
  proof (cases "x < 10")
    case True
    with Suc.prems show ?thesis
      by (subst toStringRadix.simps) simp
  next
    case False
    with Suc.prems have n: "0 < n"
      by (cases n) simp_all
    from Suc.prems have "0 \<le> x div 10" "x div 10 < 10 ^ n"
      by simp_all
    then have "length (toStringRadix 10 (x div 10)) \<le> n"
      using n by (rule Suc.IH)
    with False Suc.prems show ?thesis
      by (subst toStringRadix.simps) simp
  qed
qed

lemma candidates_range:
  assumes "0 \<le> x" "x < 1000000000000000000000" "v \<in> set (candidates x)"
  shows "0 \<le> v \<and> v \<le> 1000000000000000000000"
proof -
  have len: "length (toStringRadix 10 x) \<le> 21"
    using assms(1,2) by (intro length_decimal) simp_all
  from assms(3) obtain j where j: "j < length (toStringRadix 10 x)"
    and v: "v = (x div 10 ^ j) * 10 ^ j \<or> v = (x div 10 ^ j) * 10 ^ j + 10 ^ j"
    by (auto simp: candidates_def Let_def split: if_splits)
  from j len have j21: "j \<le> 21"
    by simp
  have p: "(0::int) < 10 ^ j"
    by simp
  have lo0: "0 \<le> (x div 10 ^ j) * 10 ^ j"
    using assms(1) by (simp add: pos_imp_zdiv_nonneg_iff)
  have split: "(10::int) ^ 21 = 10 ^ (21 - j) * 10 ^ j"
    using j21 by (simp add: power_add [symmetric])
  have lt: "x < 10 ^ (21 - j) * 10 ^ j"
    using assms(2) split by simp
  have "x div 10 ^ j * 10 ^ j + x mod 10 ^ j = x"
    by (rule div_mult_mod_eq)
  moreover have "0 \<le> x mod 10 ^ j"
    using p by (rule pos_mod_sign)
  ultimately have "x div 10 ^ j * 10 ^ j \<le> x"
    by linarith
  with lt have "x div 10 ^ j * 10 ^ j < 10 ^ (21 - j) * 10 ^ j"
    by (rule le_less_trans [rotated])
  then have "x div 10 ^ j < 10 ^ (21 - j)"
    using p by (simp only: mult_less_cancel_right)
  then have "x div 10 ^ j + 1 \<le> 10 ^ (21 - j)"
    by simp
  then have "(x div 10 ^ j + 1) * 10 ^ j \<le> 10 ^ (21 - j) * 10 ^ j"
    using p by (intro mult_right_mono) simp_all
  then have hi: "(x div 10 ^ j) * 10 ^ j + 10 ^ j \<le> 1000000000000000000000"
    using split by (simp add: algebra_simps)
  from p hi have "(x div 10 ^ j) * 10 ^ j \<le> 1000000000000000000000"
    by linarith
  with v lo0 hi p show ?thesis
    by auto
qed

lemma shortest_range:
  assumes "0 \<le> x" "x < 1000000000000000000000" "toDouble x = x"
  shows "0 \<le> shortest x \<and> shortest x < 1000000000000000000000 \<and> toDouble (shortest x) = x"
proof (cases "List.find (\<lambda>v. toDouble v = x) (candidates x)")
  case None
  with assms show ?thesis
    by (simp add: shortest_def)
next
  case (Some v)
  then have v: "v \<in> set (candidates x)" "toDouble v = x"
    by (auto simp: find_Some_iff)
  from candidates_range [OF assms(1,2) v(1)] have r: "0 \<le> v" "v \<le> 1000000000000000000000"
    by simp_all
  have "v \<noteq> 1000000000000000000000"
    using v(2) assms(2) toDouble_10_21 by auto
  with r v Some show ?thesis
    by (simp add: shortest_def)
qed

lemma numberToString_digits:
  assumes "0 \<le> x" "x < 1000000000000000000000" "toDouble x = x"
  shows "\<exists>v. 0 \<le> v \<and> toDouble v = x \<and> numberToString x = toStringRadix 10 v"
proof (cases "x \<le> 9007199254740992")
  case True
  with assms show ?thesis
    by (auto simp: numberToString_def Let_def)
next
  case False
  with assms shortest_range [OF assms] show ?thesis
    by (auto simp: numberToString_def Let_def render_def)
qed

lemma numberToString_small:
  "0 \<le> x \<Longrightarrow> x \<le> 9007199254740992 \<Longrightarrow> numberToString x = toStringRadix 10 x"
  by (simp add: numberToString_def)

text \<open>
  Some numbers as \<open>toString()\<close> prints them, and a text that \<open>parseInt\<close> reads as a
  neighbouring double.
\<close>

lemma numberToString_examples:
  "numberToString 1152921504606846976 = ''1152921504606847000''"
  "numberToString 1000000000000000000000 = ''1e+21''"
  "numberToString 99999999999999991611392 = ''1e+23''"
  "numberToString 1180591620717411303424 = ''1.1805916207174113e+21''"
  "numberToString (- 42) = ''-42''"
  by code_simp+

lemma parseInt_rounds: "parseInt 10 ''9007199254740993'' = 9007199254740992"
  by code_simp

lemma numberToString_1: "numberToString 1 = ''1''"
  by (simp add: numberToString_def toStringRadix.simps digitChar_def)

lemma jsAdd_exact: "\<bar>a + b\<bar> \<le> 9007199254740992 \<Longrightarrow> jsAdd a b = a + b"
  by (simp add: jsAdd_def toDouble_exact)

lemma jsSub_exact: "\<bar>a - b\<bar> \<le> 9007199254740992 \<Longrightarrow> jsSub a b = a - b"
  by (simp add: jsSub_def toDouble_exact)

subsection \<open>Proof-of-work verification\<close>

lemma concat_replicate_single: "concat (replicate n [c]) = replicate n c"
  by (induction n) simp_all

lemma repeat_zero:
  "repeat maxLen ''0'' d =
     (if d < 0 \<or> maxLen < d then Inl RangeError else Inr (replicate (nat d) CHR ''0''))"
  by (simp add: repeat_def concat_replicate_single)

lemma take_eq_replicate_iff:
  "n \<le> length h \<Longrightarrow> (take n h = replicate n c) = (\<forall>i<n. h ! i = c)"
  by (auto simp: list_eq_iff_nth_eq)

text \<open>
  Claim C3. For every hash string and every difficulty \<open>d\<close> from 0 to the length of the
  hash, \<open>verifyProofOfWork(hash, d)\<close> returns true exactly when the first \<open>d\<close> characters
  of the hash are all \<open>'0'\<close>. The function is a pure function of its two arguments and of
  nothing else but the engine's longest string: a hash that the engine holds is no longer
  than \<open>maxLen\<close>, so that \<open>d \<le> maxLen\<close> for every \<open>d\<close> up to its length, and the result is
  the truth value.
\<close>

theorem verifyProofOfWork_leading_zeros:
  "0 \<le> d \<Longrightarrow> d \<le> int (length h) \<Longrightarrow>
     verifyProofOfWork maxLen h d =
       (if d \<le> maxLen then Inr (\<forall>i<nat d. h ! i = CHR ''0'') else Inl RangeError)"
  by (simp add: verifyProofOfWork_def repeat_zero startsWith_def take_eq_replicate_iff)

theorem verifyProofOfWork_leading_zeros_witness:
  "(0::int) \<le> 2 \<and> 2 \<le> int (length ''00a7'') \<and>
   verifyProofOfWork exampleMaxLen ''00a7'' 2 = Inr True"
  using verifyProofOfWork_leading_zeros [of 2 "''00a7''" exampleMaxLen]
  by (simp add: less_Suc_eq numeral_2_eq_2 exampleMaxLen_def)

subsection \<open>The GF(256) tables and division\<close>

text \<open>The two tables as \<open>initGF256\<close> leaves them.\<close>

lemma EXP_TABLE_eq: "EXP_TABLE =
 [1, 2, 4, 8, 16, 32, 64, 128, 27, 54, 108, 216, 171, 77, 154, 47, 94, 188,
  99, 198, 151, 53, 106, 212, 179, 125, 250, 239, 197, 145, 57, 114, 228,
  211, 189, 97, 194, 159, 37, 74, 148, 51, 102, 204, 131, 29, 58, 116, 232,
  203, 141, 1, 2, 4, 8, 16, 32, 64, 128, 27, 54, 108, 216, 171, 77, 154, 47,
  94, 188, 99, 198, 151, 53, 106, 212, 179, 125, 250, 239, 197, 145, 57,
  114, 228, 211, 189, 97, 194, 159, 37, 74, 148, 51, 102, 204, 131, 29, 58,
  116, 232, 203, 141, 1, 2, 4, 8, 16, 32, 64, 128, 27, 54, 108, 216, 171,
  77, 154, 47, 94, 188, 99, 198, 151, 53, 106, 212, 179, 125, 250, 239, 197,
  145, 57, 114, 228, 211, 189, 97, 194, 159, 37, 74, 148, 51, 102, 204, 131,
  29, 58, 116, 232, 203, 141, 1, 2, 4, 8, 16, 32, 64, 128, 27, 54, 108, 216,
  171, 77, 154, 47, 94, 188, 99, 198, 151, 53, 106, 212, 179, 125, 250, 239,
  197, 145, 57, 114, 228, 211, 189, 97, 194, 159, 37, 74, 148, 51, 102, 204,
  131, 29, 58, 116, 232, 203, 141, 1, 2, 4, 8, 16, 32, 64, 128, 27, 54, 108,
  216, 171, 77, 154, 47, 94, 188, 99, 198, 151, 53, 106, 212, 179, 125, 250,
  239, 197, 145, 57, 114, 228, 211, 189, 97, 194, 159, 37, 74, 148, 51, 102,
  204, 131, 29, 58, 116, 232, 203, 141, 1]"
  by code_simp

lemma LOG_TABLE_eq: "LOG_TABLE =
 [0, 204, 205, 0, 206, 0, 0, 0, 207, 0, 0, 0, 0, 0, 0, 0, 208, 0, 0, 0, 0,
  0, 0, 0, 0, 0, 0, 212, 0, 249, 0, 0, 209, 0, 0, 0, 0, 242, 0, 0, 0, 0, 0,
  0, 0, 0, 0, 219, 0, 0, 0, 245, 0, 225, 213, 0, 0, 234, 250, 0, 0, 0, 0, 0,
  210, 0, 0, 0, 0, 0, 0, 0, 0, 0, 243, 0, 0, 217, 0, 0, 0, 0, 0, 0, 0, 0, 0,
  0, 0, 0, 0, 0, 0, 0, 220, 0, 0, 239, 0, 222, 0, 0, 246, 0, 0, 0, 226, 0,
  214, 0, 0, 0, 0, 0, 235, 0, 251, 0, 0, 0, 0, 0, 0, 0, 0, 229, 0, 0, 211,
  0, 0, 248, 0, 0, 0, 0, 0, 0, 0, 0, 0, 254, 0, 0, 0, 233, 0, 0, 244, 0, 0,
  224, 0, 0, 218, 0, 0, 0, 0, 241, 0, 0, 0, 0, 0, 0, 0, 0, 0, 0, 0, 216, 0,
  0, 0, 0, 0, 0, 0, 228, 0, 0, 0, 0, 0, 0, 0, 0, 221, 238, 0, 0, 0, 0, 240,
  0, 0, 232, 223, 0, 0, 0, 0, 253, 247, 0, 0, 0, 0, 0, 0, 237, 227, 0, 0, 0,
  215, 0, 0, 0, 0, 0, 0, 0, 0, 0, 0, 0, 236, 0, 0, 0, 252, 0, 0, 0, 0, 0, 0,
  231, 0, 0, 0, 0, 0, 0, 0, 0, 0, 0, 230, 0, 0, 0, 0, 0]"
  by code_simp

text \<open>Evaluation reads the tables from these two equations instead of refilling them.\<close>

declare EXP_TABLE_eq [code] LOG_TABLE_eq [code]

lemma length_EXP_TABLE: "length EXP_TABLE = 256"
  by (simp add: EXP_TABLE_eq)

lemma length_LOG_TABLE: "length LOG_TABLE = 256"
  by (simp add: LOG_TABLE_eq)

lemma LOG_TABLE_range_all: "\<forall>v\<in>set LOG_TABLE. 0 \<le> v \<and> v \<le> 254"
  by (simp add: LOG_TABLE_eq)

lemma LOG_TABLE_range: "i < 256 \<Longrightarrow> 0 \<le> LOG_TABLE ! i \<and> LOG_TABLE ! i \<le> 254"
  using LOG_TABLE_range_all length_LOG_TABLE nth_mem by metis

text \<open>
  Claim C5. For \<open>a\<close> and \<open>b\<close> in \<open>[0, 255]\<close>, \<open>gfDiv(a, b)\<close> throws the division-by-zero
  error exactly when \<open>b = 0\<close>; when \<open>b \<noteq> 0\<close> it returns 0 if \<open>a = 0\<close> and otherwise
  \<open>EXP_TABLE[(LOG_TABLE[a] - LOG_TABLE[b] + 255) mod 255]\<close>.
\<close>

theorem gfDiv_cases:
  assumes "0 \<le> a" "a \<le> 255" "0 \<le> b" "b \<le> 255"
  shows "((gfDiv (Num a) (Num b) = Inl (Error ''Division by zero'')) = (b = 0)) \<and>
         (b \<noteq> 0 \<longrightarrow> gfDiv (Num a) (Num b) =
           Inr (Num (if a = 0 then 0
                     else EXP_TABLE ! nat ((LOG_TABLE ! nat a - LOG_TABLE ! nat b + 255) mod 255))))"
proof (intro conjI impI)
  show "(gfDiv (Num a) (Num b) = Inl (Error ''Division by zero'')) = (b = 0)"
    by (simp add: gfDiv_def)
next
  assume nz: "b \<noteq> 0"
  have na: "nat a < 256" and nb: "nat b < 256"
    using assms by simp_all
  have la: "0 \<le> LOG_TABLE ! nat a \<and> LOG_TABLE ! nat a \<le> 254"
    using na by (rule LOG_TABLE_range)
  have lb: "0 \<le> LOG_TABLE ! nat b \<and> LOG_TABLE ! nat b \<le> 254"
    using nb by (rule LOG_TABLE_range)
  have pos: "0 < LOG_TABLE ! nat a - LOG_TABLE ! nat b + 255"
    using la lb by simp
  have rem: "jsRem (LOG_TABLE ! nat a - LOG_TABLE ! nat b + 255) 255 =
             (LOG_TABLE ! nat a - LOG_TABLE ! nat b + 255) mod 255"
    using pos by (simp add: jsRem_def)
  have idx: "nat ((LOG_TABLE ! nat a - LOG_TABLE ! nat b + 255) mod 255) < 256"
    by simp
  show "gfDiv (Num a) (Num b) =
           Inr (Num (if a = 0 then 0
                     else EXP_TABLE ! nat ((LOG_TABLE ! nat a - LOG_TABLE ! nat b + 255) mod 255)))"
    using nz assms rem idx na nb
    by (simp add: gfDiv_def typedGet_def length_LOG_TABLE length_EXP_TABLE)
qed

theorem gfDiv_cases_witness:
  "gfDiv (Num 0) (Num 0) = Inl (Error ''Division by zero'') \<and>
   gfDiv (Num 0) (Num 2) = Inr (Num 0) \<and>
   gfDiv (Num 4) (Num 2) = Inr (Num 2)"
  using gfDiv_cases [of 0 0] gfDiv_cases [of 0 2] gfDiv_cases [of 4 2]
  by (simp add: EXP_TABLE_eq LOG_TABLE_eq)

subsection \<open>Hexadecimal text and the length of a digest\<close>

lemma digitChar_0: "digitChar 0 = CHR ''0''"
  by (simp add: digitChar_def)

lemma byte_hex:
  assumes "0 \<le> b" "b < 256"
  shows "padStart 2 CHR ''0'' (toStringRadix 16 b) = [digitChar (b div 16), digitChar (b mod 16)]"
proof (cases "b < 16")
  case True
  with assms show ?thesis
    by (simp add: padStart_def digitChar_0 toStringRadix.simps)
next
  case False
  with assms have "0 \<le> b div 16" "b div 16 < 16"
    by simp_all
  then have "toStringRadix 16 (b div 16) = [digitChar (b div 16)]"
    by (simp add: toStringRadix.simps)
  with False assms show ?thesis
    by (subst toStringRadix.simps) (simp add: padStart_def)
qed


lemma wordBytes_range: "\<forall>b\<in>set (wordBytes w). 0 \<le> b \<and> b < 256"
  by (simp add: wordBytes_def)





subsection \<open>Mining\<close>











subsection \<open>Chain validation\<close>





subsection \<open>The example vote\<close>

lemma example_mined:
  "mineBlock exampleMaxLen
     (blockDataJson 1 1700000000001 ''RSA2048:deadbeef'' ''voterhash1''
        ''GENESIS_HASH_ELECTORAL_COMMISSION_2024'' 4)
     ''GENESIS_HASH_ELECTORAL_COMMISSION_2024'' 4 exampleNonces =
   Inr \<lparr>mined_nonce = ''0000000000000000000000000002cd9b'',
        mined_hash = ''00000b580c434cf80bdc2d0a043b58bb1f509c8f61020024f4f5885d1f362fe5'',
        attempts = 1\<rparr>"
  by code_simp

lemma example_calculated:
  "calculateBlockHash exampleBlock =
     ''d1b4d8b021bd582ea1237e5f785758148c082e8d71202fc9cb9f3f024d4b966c''"
  by code_simp


lemma example_addVote:
  "addVote exampleMaxLen (createBlockchain 1700000000000) ''RSA2048:deadbeef'' ''voterhash1'' 4
     exampleClock exampleNonces =
   Inr \<lparr>state = \<lparr>chain = [GENESIS_BLOCK, exampleBlock],
                  pendingVotes = [''voterhash1'' \<mapsto> exampleBlock],
                  isValid = True, lastValidated = 1700000000003\<rparr>,
        block = exampleBlock, miningTime = 2\<rparr>"
  by (simp add: addVote_def createBlockchain_def GENESIS_BLOCK_def example_mined
        exampleClock_def exampleBlock_def Let_def jsAdd_exact jsSub_exact)

lemma example_validateChain:
  "validateChain exampleMaxLen [GENESIS_BLOCK, exampleBlock] =
     Inr \<lparr>v_isValid = False, invalidBlockIndex = Some 1,
          error = Some ''Hash mismatch at block 1''\<rparr>"
proof -
  have idx: "index exampleBlock = jsAdd (index GENESIS_BLOCK) 1"
    and link: "previousHash exampleBlock = hash GENESIS_BLOCK"
    and mismatch: "calculateBlockHash exampleBlock \<noteq> hash exampleBlock"
    by (simp_all add: example_calculated)
       (simp_all add: exampleBlock_def GENESIS_BLOCK_def jsAdd_exact)
  have "validateFrom exampleMaxLen [GENESIS_BLOCK, exampleBlock] 1 =
          Inr (invalidAt 1 ''Hash mismatch at block '')"
    using idx link mismatch by (subst validateFrom.simps) simp
  moreover have "index GENESIS_BLOCK = 0"
    by (simp add: GENESIS_BLOCK_def)
  ultimately show ?thesis
    by (simp add: validateChain_def invalidAt_def numberToString_1)
qed




text \<open>
  Claim C1. Every chain produced by \<open>addVote\<close> alone from the state of \<open>createBlockchain\<close>
  is accepted by \<open>validateChain\<close>. The source does not satisfy it. \<open>addVote\<close> stores as the
  block's \<open>hash\<close> the digest found by mining, \<open>sha256(JSON.stringify(blockData) +
  previousHash + nonce)\<close>, while \<open>validateChain\<close> compares \<open>hash\<close> with
  \<open>calculateBlockHash\<close>, the digest of another text. For the example vote \<open>addVote\<close>
  returns the chain of the genesis block and \<open>exampleBlock\<close>, whose hash has the four
  leading zeros, and \<open>validateChain\<close> rejects that chain with a hash mismatch at block 1.
\<close>

theorem addVote_chain_fails_validation:
  "addVote exampleMaxLen (createBlockchain 1700000000000) ''RSA2048:deadbeef'' ''voterhash1'' 4
     exampleClock exampleNonces =
   Inr \<lparr>state = \<lparr>chain = [GENESIS_BLOCK, exampleBlock],
                  pendingVotes = [''voterhash1'' \<mapsto> exampleBlock],
                  isValid = True, lastValidated = 1700000000003\<rparr>,
        block = exampleBlock, miningTime = 2\<rparr> \<and>
   validateChain exampleMaxLen [GENESIS_BLOCK, exampleBlock] =
     Inr \<lparr>v_isValid = False, invalidBlockIndex = Some 1,
          error = Some ''Hash mismatch at block 1''\<rparr>"
  using example_addVote example_validateChain by (rule conjI)

subsection \<open>Splitting and combining a secret\<close>

text \<open>
  Claim C4. For \<open>2 \<le> k \<le> n \<le> 255\<close>, combining any \<open>k\<close> of the \<open>n\<close> shares of
  \<open>shamirSplit(S, n, k)\<close> gives back \<open>S\<close>. The source does not satisfy it. \<open>initGF256\<close>
  steps through the powers of 2, which are only 51 of the 255 non-zero field elements, so
  \<open>LOG_TABLE\<close> is 0 for every other element and \<open>gfMul\<close>, \<open>gfDiv\<close> are not the field
  operations. For the one-byte secret 42 split into 5 shares with threshold 3 and the
  random coefficients 23 and 99, the first three shares combine to 148.
\<close>

theorem shamir_roundtrip_fails:
  "shamirSplit [42] 5 3 exampleBytes =
     Inr [\<lparr>share_x = 1, share_y = [99]\<rparr>, \<lparr>share_x = 2, share_y = [148]\<rparr>,
          \<lparr>share_x = 3, share_y = [99]\<rparr>, \<lparr>share_x = 4, share_y = [111]\<rparr>,
          \<lparr>share_x = 5, share_y = [99]\<rparr>] \<and>
   shamirCombine [\<lparr>share_x = 1, share_y = [99]\<rparr>, \<lparr>share_x = 2, share_y = [148]\<rparr>,
                  \<lparr>share_x = 3, share_y = [99]\<rparr>] = Inr [148]"
  by code_simp

text \<open>No loop of \<open>shamirSplit\<close> changes the \<open>x\<close> of a share or the length of its \<open>y\<close>.\<close>

lemma map_update_same: "(map f xs)[i := f (xs ! i)] = map f xs"
  by (simp add: map_update [symmetric])

lemma setShareByte_x:
  "map share_x (setShareByte byteIdx cs k shares i) = map share_x shares"
  by (simp add: setShareByte_def Let_def map_update map_update_same)

lemma setShareByte_len:
  "map (\<lambda>s. length (share_y s)) (setShareByte byteIdx cs k shares i) =
   map (\<lambda>s. length (share_y s)) shares"
  by (simp add: setShareByte_def Let_def map_update map_update_same [of "\<lambda>s. length (share_y s)"])

lemma foldl_setShareByte_x:
  "map share_x (foldl (setShareByte byteIdx cs k) shares is) = map share_x shares"
  by (induction "is" arbitrary: shares) (simp_all add: setShareByte_x)

lemma foldl_setShareByte_len:
  "map (\<lambda>s. length (share_y s)) (foldl (setShareByte byteIdx cs k) shares is) =
   map (\<lambda>s. length (share_y s)) shares"
  by (induction "is" arbitrary: shares) (simp_all add: setShareByte_len)

lemma foldl_splitByte_x:
  "map share_x (fst (foldl (splitByte secret n k rnd) (shares, pos) bs)) = map share_x shares"
  by (induction bs arbitrary: shares pos) (simp_all add: Let_def foldl_setShareByte_x)

lemma foldl_splitByte_len:
  "map (\<lambda>s. length (share_y s)) (fst (foldl (splitByte secret n k rnd) (shares, pos) bs)) =
   map (\<lambda>s. length (share_y s)) shares"
  by (induction bs arbitrary: shares pos) (simp_all add: Let_def foldl_setShareByte_len)

text \<open>
  Claim C6. \<open>shamirSplit(secret, n, k)\<close> throws an error exactly when \<open>k < 2\<close> or \<open>k > n\<close>.
  When it succeeds it returns exactly \<open>n\<close> shares, whose \<open>x\<close> identifiers are the distinct
  values 1 to \<open>n\<close> in order, and the \<open>y\<close> of each share has the length of the secret.
\<close>

theorem shamirSplit_shape:
  "((\<exists>e. shamirSplit secret n k rnd = Inl e) = (k < 2 \<or> k > n)) \<and>
   (\<forall>shares. shamirSplit secret n k rnd = Inr shares \<longrightarrow>
      length shares = nat n \<and> map share_x shares = [1..n] \<and> distinct (map share_x shares) \<and>
      (\<forall>s\<in>set shares. length (share_y s) = length secret))"
proof (intro conjI allI impI)
  show "(\<exists>e. shamirSplit secret n k rnd = Inl e) = (k < 2 \<or> k > n)"
    by (auto simp: shamirSplit_def)
next
  fix shares
  assume res: "shamirSplit secret n k rnd = Inr shares"
  let ?init = "map (\<lambda>i. \<lparr>share_x = i, share_y = replicate (length secret) 0\<rparr>) [1..n]"
  from res have sh: "shares = fst (foldl (splitByte secret n k rnd) (?init, 0) [0..<length secret])"
    by (simp add: shamirSplit_def split: if_splits)
  have xs: "map share_x shares = [1..n]"
    unfolding sh foldl_splitByte_x by (simp add: comp_def)
  have lens: "map (\<lambda>s. length (share_y s)) shares = map (\<lambda>i. length secret) [1..n]"
    unfolding sh foldl_splitByte_len by (simp add: comp_def)
  show "map share_x shares = [1..n]"
    by (rule xs)
  from xs have "length (map share_x shares) = length [1..n]"
    by simp
  then show "length shares = nat n"
    by simp
  show "distinct (map share_x shares)"
    by (simp add: xs)
  show "\<forall>s\<in>set shares. length (share_y s) = length secret"
  proof
    fix s
    assume "s \<in> set shares"
    then have "length (share_y s) \<in> set (map (\<lambda>s. length (share_y s)) shares)"
      by auto
    then show "length (share_y s) = length secret"
      unfolding lens by auto
  qed
qed

theorem shamirSplit_shape_witness:
  "\<exists>shares. shamirSplit [42] 5 3 exampleBytes = Inr shares \<and> length shares = 5 \<and>
     map share_x shares = [1, 2, 3, 4, 5] \<and> map (\<lambda>s. length (share_y s)) shares = [1, 1, 1, 1, 1]"
proof -
  note shape = shamirSplit_shape [of "[42]" 5 3 exampleBytes]
  from shape have "\<not> (\<exists>e. shamirSplit [42] 5 3 exampleBytes = Inl e)"
    by simp
  then obtain shares where res: "shamirSplit [42] 5 3 exampleBytes = Inr shares"
    by (cases "shamirSplit [42] 5 3 exampleBytes") auto
  with shape have len: "length shares = nat 5" and xs: "map share_x shares = [1..5]"
    and ys: "\<forall>s\<in>set shares. length (share_y s) = length [42::int]"
    by blast+
  have "[1..5] = [1, 2, 3, 4, 5 :: int]"
    by (simp add: upto_rec1)
  moreover from ys have "map (\<lambda>s. length (share_y s)) shares = replicate (length shares) 1"
    by (simp add: map_replicate_const [symmetric] cong: map_cong)
  ultimately show ?thesis
    using res len xs by (simp add: numeral_eq_Suc)
qed

subsection \<open>The textual form of a share\<close>

lemma digit_range:
  "0 \<le> d \<Longrightarrow> d < 16 \<Longrightarrow>
     d = 0 \<or> d = 1 \<or> d = 2 \<or> d = 3 \<or> d = 4 \<or> d = 5 \<or> d = 6 \<or> d = 7 \<or>
     d = 8 \<or> d = 9 \<or> d = 10 \<or> d = 11 \<or> d = 12 \<or> d = 13 \<or> d = 14 \<or> d = (15::int)"
  by arith

lemma digitVal_digitChar: "0 \<le> d \<Longrightarrow> d < 16 \<Longrightarrow> digitVal (digitChar d) = d"
  by (drule (1) digit_range) (auto simp: digitVal_def digitChar_def)

lemma isHexDigit_digitChar: "0 \<le> d \<Longrightarrow> d < 16 \<Longrightarrow> isHexDigit (digitChar d)"
  by (drule (1) digit_range) (auto simp: isHexDigit_def digitChar_def)

lemma isDigit_digitChar: "0 \<le> d \<Longrightarrow> d < 10 \<Longrightarrow> isDigit (digitChar d)"
proof -
  assume "0 \<le> d" "d < 10"
  then have "d = 0 \<or> d = 1 \<or> d = 2 \<or> d = 3 \<or> d = 4 \<or> d = 5 \<or> d = 6 \<or> d = 7 \<or> d = 8 \<or> d = 9"
    by arith
  then show ?thesis
    by (auto simp: isDigit_def digitChar_def)
qed

lemma digitsValue_snoc: "digitsValue r (s @ [c]) = digitsValue r s * r + digitVal c"
  by (simp add: digitsValue_def)

lemma decimal_digits:
  "0 \<le> n \<Longrightarrow> r = 10 \<Longrightarrow>
     toStringRadix r n \<noteq> [] \<and> list_all isDigit (toStringRadix r n) \<and>
     digitsValue 10 (toStringRadix r n) = n"
proof (induction r n rule: toStringRadix.induct)
  case (1 r n)
  show ?case
  proof (cases "n < 10")
    case True
    with "1.prems" show ?thesis
      by (subst (1 2 3) toStringRadix.simps)
         (simp add: isDigit_digitChar digitVal_digitChar digitsValue_def)
  next
    case False
    with "1.prems" have ih: "toStringRadix r (n div r) \<noteq> [] \<and>
        list_all isDigit (toStringRadix r (n div r)) \<and>
        digitsValue 10 (toStringRadix r (n div r)) = n div r"
      by (intro "1.IH"(2)) simp_all
    have m: "0 \<le> n mod 10" "n mod 10 < 10"
      by simp_all
    have unfold: "toStringRadix r n = toStringRadix r (n div r) @ [digitChar (n mod r)]"
      using False "1.prems" by (subst toStringRadix.simps) simp
    show ?thesis
      unfolding unfold using ih "1.prems" m
      by (simp add: digitsValue_snoc isDigit_digitChar digitVal_digitChar)
  qed
qed

lemma digitsValue_zeros: "digitsValue r (replicate m CHR ''0'' @ s) = digitsValue r s"
proof -
  have "foldl (\<lambda>acc c. acc * r + digitVal c) 0 (replicate m CHR ''0'') = 0"
    by (induction m) (simp_all add: digitVal_def)
  then show ?thesis
    by (simp add: digitsValue_def)
qed

lemma isDigit_zero: "isDigit CHR ''0''"
  by (simp add: isDigit_def)

text \<open>
  The \<open>x\<close> of a share as \<open>encodeShare\<close> prints it, for a number \<open>x\<close> from 0 to below
  \<open>10\<^sup>2\<^sup>1\<close>: one or more decimal digits, which \<open>parseInt\<close> reads as \<open>x\<close>.
\<close>

lemma padded_decimal:
  assumes "0 \<le> x" "x < 1000000000000000000000" "toDouble x = x"
  shows "padStart 2 CHR ''0'' (numberToString x) \<noteq> []"
    and "list_all isDigit (padStart 2 CHR ''0'' (numberToString x))"
    and "parseInt 10 (padStart 2 CHR ''0'' (numberToString x)) = x"
proof -
  from numberToString_digits [OF assms] obtain v where
    v: "0 \<le> v" "toDouble v = x" "numberToString x = toStringRadix 10 v"
    by blast
  note d = decimal_digits [OF v(1) refl]
  from d show "padStart 2 CHR ''0'' (numberToString x) \<noteq> []"
    by (simp add: v(3) padStart_def)
  from d show "list_all isDigit (padStart 2 CHR ''0'' (numberToString x))"
    by (auto simp: v(3) padStart_def isDigit_zero list_all_iff)
  from d show "parseInt 10 (padStart 2 CHR ''0'' (numberToString x)) = x"
    by (simp add: v(2,3) padStart_def parseInt_def digitsValue_zeros)
qed

lemma parseInt_byte:
  assumes "0 \<le> b" "b < 256"
  shows "parseInt 16 [digitChar (b div 16), digitChar (b mod 16)] = b"
proof -
  from assms have d: "0 \<le> b div 16" "b div 16 < 16" "0 \<le> b mod 16" "b mod 16 < 16"
    by simp_all
  then have "digitsValue 16 [digitChar (b div 16), digitChar (b mod 16)] = b"
    by (simp add: digitsValue_def digitVal_digitChar)
  moreover from assms have "toDouble b = b"
    by (intro toDouble_exact) simp
  ultimately show ?thesis
    by (simp add: parseInt_def)
qed

lemma hex_bytes:
  "\<forall>b\<in>set bs. 0 \<le> b \<and> b < 256 \<Longrightarrow>
     list_all isHexDigit (bufferToHex bs) \<and>
     map (parseInt 16) (chunks2 (bufferToHex bs)) = bs"
proof (induction bs)
  case Nil
  show ?case by (simp add: bufferToHex_def)
next
  case (Cons b bs)
  then have b: "0 \<le> b" "b < 256" and ih: "list_all isHexDigit (bufferToHex bs)"
      "map (parseInt 16) (chunks2 (bufferToHex bs)) = bs"
    by (simp_all add: bufferToHex_def)
  from b have d: "0 \<le> b div 16" "b div 16 < 16" "0 \<le> b mod 16" "b mod 16 < 16"
    by simp_all
  have "bufferToHex (b # bs) = digitChar (b div 16) # digitChar (b mod 16) # bufferToHex bs"
    using b by (simp add: bufferToHex_def byte_hex)
  then show ?case
    using ih d b by (simp add: isHexDigit_digitChar parseInt_byte)
qed

lemma bufferToHex_nonempty:
  "bs \<noteq> [] \<Longrightarrow> \<forall>b\<in>set bs. 0 \<le> b \<and> b < 256 \<Longrightarrow> bufferToHex bs \<noteq> []"
  by (cases bs) (simp_all add: bufferToHex_def byte_hex)

lemma not_isDigit_colon: "\<not> isDigit CHR '':''"
  by (simp add: isDigit_def)

lemma decodeShare_parts:
  assumes "ds \<noteq> []" "list_all isDigit ds"
  shows "decodeShare (''SHARD-'' @ ds @ '':'' @ hs) =
           (if hs \<noteq> [] \<and> list_all isHexDigit hs
            then Inr \<lparr>share_x = parseInt 10 ds, share_y = map (parseInt 16) (chunks2 hs),
                      y_buffer = map (parseInt 16) (chunks2 hs), y_byteOffset = 0\<rparr>
            else Inl (Error ''Invalid share format''))"
proof -
  have tw: "takeWhile isDigit (ds @ CHR '':'' # hs) = ds"
    using assms(2) by (simp add: takeWhile_append2 list_all_iff not_isDigit_colon)
  have dw: "dropWhile isDigit (ds @ CHR '':'' # hs) = CHR '':'' # hs"
    using assms(2) by (simp add: dropWhile_append2 list_all_iff not_isDigit_colon)
  show ?thesis
    using assms(1) by (simp add: decodeShare_def tw dw toUpper_def Let_def)
qed

lemma not_isHexDigit_colon: "\<not> isHexDigit CHR '':''"
  by (simp add: isHexDigit_def)

lemma last_dropWhile: "dropWhile P xs \<noteq> [] \<Longrightarrow> last (dropWhile P xs) = last xs"
  by (metis last_appendR takeWhile_dropWhile_id)

lemma decodeShare_no_hex:
  "decodeShare (''SHARD-'' @ ds @ '':'') = Inl (Error ''Invalid share format'')"
proof -
  let ?rest = "dropWhile isDigit (ds @ '':'')"
  have "\<not> (?rest \<noteq> [] \<and> tl ?rest \<noteq> [] \<and> list_all isHexDigit (tl ?rest))"
  proof
    assume a: "?rest \<noteq> [] \<and> tl ?rest \<noteq> [] \<and> list_all isHexDigit (tl ?rest)"
    from a have "last ?rest = last (ds @ '':'')"
      by (intro last_dropWhile) blast
    then have "last ?rest = CHR '':''"
      by simp
    moreover from a have "last (tl ?rest) = last ?rest"
      by (intro last_tl) blast
    ultimately have "last (tl ?rest) = CHR '':''"
      by (rule trans [rotated])
    moreover from a have "last (tl ?rest) \<in> set (tl ?rest)"
      by (intro last_in_set) blast
    ultimately have "CHR '':'' \<in> set (tl ?rest)"
      by (rule subst)
    moreover from a have "\<forall>c\<in>set (tl ?rest). isHexDigit c"
      by (auto simp only: list_all_iff)
    ultimately show False
      using not_isHexDigit_colon by blast
  qed
  then show ?thesis
    by (auto simp: decodeShare_def Let_def)
qed

text \<open>
  What \<open>decodeShare\<close> returns for the text of a share: the \<open>x\<close> of the share, and as \<open>y\<close>
  the bytes of the whole buffer under the share's \<open>y\<close>.
\<close>

lemma decodeShare_returns_buffer:
  assumes "0 \<le> share_x s" "share_x s < 1000000000000000000000" "toDouble (share_x s) = share_x s"
    and "y_buffer s \<noteq> []" "\<forall>b\<in>set (y_buffer s). 0 \<le> b \<and> b < 256"
  shows "decodeShare (encodeShare s) =
           Inr \<lparr>share_x = share_x s, share_y = y_buffer s, y_buffer = y_buffer s,
                y_byteOffset = 0\<rparr>"
proof -
  from assms(4,5) have hex: "bufferToHex (y_buffer s) \<noteq> []"
      "list_all isHexDigit (bufferToHex (y_buffer s))"
      "map (parseInt 16) (chunks2 (bufferToHex (y_buffer s))) = y_buffer s"
    by (simp_all add: bufferToHex_nonempty hex_bytes)
  show ?thesis
    unfolding encodeShare_def
    by (subst decodeShare_parts) (simp_all add: padded_decimal [OF assms(1-3)] hex)
qed

text \<open>
  Claim C9, as amended. For every share whose \<open>x\<close> is an integer number with
  \<open>1 \<le> x < 10\<^sup>2\<^sup>1\<close> and whose \<open>y\<close> is a non-empty byte array that spans its whole buffer,
  \<open>decodeShare(encodeShare(share))\<close> is a share equal to the original, with the same \<open>x\<close>
  and the same bytes. For a share whose \<open>y\<close> has an empty buffer, \<open>decodeShare\<close> rejects the
  text that \<open>encodeShare\<close> produces, with the error \<open>Invalid share format\<close>.
\<close>

theorem decodeShare_encodeShare:
  "(1 \<le> share_x s \<and> share_x s < 1000000000000000000000 \<and> toDouble (share_x s) = share_x s \<and>
    y_buffer s = share_y s \<and> y_byteOffset s = 0 \<and>
    share_y s \<noteq> [] \<and> (\<forall>b\<in>set (share_y s). 0 \<le> b \<and> b < 256) \<longrightarrow>
      decodeShare (encodeShare s) = Inr s) \<and>
   (y_buffer s = [] \<longrightarrow> decodeShare (encodeShare s) = Inl (Error ''Invalid share format''))"
proof (intro conjI impI)
  assume a: "1 \<le> share_x s \<and> share_x s < 1000000000000000000000 \<and>
    toDouble (share_x s) = share_x s \<and> y_buffer s = share_y s \<and> y_byteOffset s = 0 \<and>
    share_y s \<noteq> [] \<and> (\<forall>b\<in>set (share_y s). 0 \<le> b \<and> b < 256)"
  then have "decodeShare (encodeShare s) =
      Inr \<lparr>share_x = share_x s, share_y = y_buffer s, y_buffer = y_buffer s, y_byteOffset = 0\<rparr>"
    by (intro decodeShare_returns_buffer) simp_all
  with a show "decodeShare (encodeShare s) = Inr s"
    by simp
next
  assume e: "y_buffer s = []"
  have "bufferToHex (y_buffer s) = []"
    by (simp add: e bufferToHex_def)
  then have enc: "encodeShare s =
      ''SHARD-'' @ padStart 2 CHR ''0'' (numberToString (share_x s)) @ '':''"
    by (simp only: encodeShare_def append_Nil2)
  show "decodeShare (encodeShare s) = Inl (Error ''Invalid share format'')"
    unfolding enc by (rule decodeShare_no_hex)
qed

theorem decodeShare_encodeShare_witness:
  "decodeShare (encodeShare
      \<lparr>share_x = 5, share_y = [0, 255, 16], y_buffer = [0, 255, 16], y_byteOffset = 0\<rparr>) =
     Inr \<lparr>share_x = 5, share_y = [0, 255, 16], y_buffer = [0, 255, 16], y_byteOffset = 0\<rparr> \<and>
   decodeShare (encodeShare \<lparr>share_x = 5, share_y = [], y_buffer = [], y_byteOffset = 0\<rparr>) =
     Inl (Error ''Invalid share format'')"
  using decodeShare_encodeShare
      [of "\<lparr>share_x = 5, share_y = [0, 255, 16], y_buffer = [0, 255, 16], y_byteOffset = 0\<rparr>"]
    decodeShare_encodeShare
      [of "\<lparr>share_x = 5, share_y = [], y_buffer = [], y_byteOffset = 0\<rparr>"]
  by (simp add: toDouble_exact)

text \<open>
  Claim C9 as stated is for every share with \<open>x \<ge> 1\<close>, and takes the bytes of \<open>y\<close> for what
  is encoded. The three example shares are views on their buffers, with \<open>x \<ge> 1\<close>.
  \<open>viewShare\<close> has the one byte 2, and comes back with the two bytes 1, 2 of its buffer.
  \<open>largeShare\<close> is printed with its \<open>x\<close> as \<open>1e+21\<close>, which \<open>decodeShare\<close> rejects.
  \<open>emptyViewShare\<close> has a zero-length \<open>y\<close>, and its text is accepted.
\<close>

theorem decodeShare_encodeShare_counterexample:
  "viewOnBuffer viewShare \<and> viewOnBuffer largeShare \<and> viewOnBuffer emptyViewShare \<and>
   encodeShare viewShare = ''SHARD-01:0102'' \<and>
   decodeShare (encodeShare viewShare) =
     Inr \<lparr>share_x = 1, share_y = [1, 2], y_buffer = [1, 2], y_byteOffset = 0\<rparr> \<and>
   share_y viewShare = [2] \<and>
   toDouble (share_x largeShare) = share_x largeShare \<and>
   encodeShare largeShare = ''SHARD-1e+21:07'' \<and>
   decodeShare (encodeShare largeShare) = Inl (Error ''Invalid share format'') \<and>
   share_y emptyViewShare = [] \<and>
   decodeShare (encodeShare emptyViewShare) =
     Inr \<lparr>share_x = 1, share_y = [1, 2], y_buffer = [1, 2], y_byteOffset = 0\<rparr>"
  by code_simp

subsection \<open>Statistics and the validity flag\<close>


lemma addVote_result:
  assumes "addVote maxLen st ev vh d clock nonces = Inr r"
  shows "chain (state r) = chain st @ [block r]"
    and "pendingVotes (state r) = (pendingVotes st)(vh \<mapsto> block r)"
    and "isValid (state r)"
    and "chain st \<noteq> []"
  using assms by (auto simp: addVote_def Let_def split: if_splits sum.splits)




lemma getVoteStatistics_fields:
  "chain st \<noteq> [] \<Longrightarrow>
     \<exists>stats. getVoteStatistics st = Inr stats \<and>
       totalBlocks stats = int (length (chain st)) - 1 \<and>
       uniqueVoters stats = int (card (dom (pendingVotes st))) \<and>
       chainIntegrity stats = isValid st"
  by (simp add: getVoteStatistics_def Let_def)



lemma reachable_invariant: "reachable maxLen st \<Longrightarrow> isValid st \<and> chain st \<noteq> []"
proof (induction rule: reachable.induct)
  case (created maxLen now)
  show ?case by (simp add: createBlockchain_def)
next
  case (added maxLen st ev vh d clock nonces r)
  from addVote_result [OF added.hyps(2)] show ?case
    by simp
qed

text \<open>
  Claim C10. In every state reached from \<open>createBlockchain\<close> by calls of \<open>addVote\<close> the
  field \<open>isValid\<close> is true, and so is \<open>chainIntegrity\<close> in \<open>getVoteStatistics\<close>, whatever
  the chain holds: none of the three functions calls \<open>validateChain\<close>.
\<close>

theorem reachable_isValid:
  "reachable maxLen st \<Longrightarrow>
     isValid st \<and> (\<exists>stats. getVoteStatistics st = Inr stats \<and> chainIntegrity stats)"
proof -
  assume "reachable maxLen st"
  then have inv: "isValid st" "chain st \<noteq> []"
    using reachable_invariant by simp_all
  with getVoteStatistics_fields [OF inv(2)] show ?thesis
    by auto
qed

theorem reachable_isValid_witness:
  "isValid (createBlockchain 1700000000000) \<and>
   (\<exists>stats. getVoteStatistics (createBlockchain 1700000000000) = Inr stats \<and> chainIntegrity stats)"
  using reachable_isValid [OF reachable.created [of exampleMaxLen 1700000000000]] .

text \<open>
  The flag does not follow \<open>validateChain\<close>: the state after the example vote is reachable
  and flagged valid, and \<open>validateChain\<close> rejects its chain.
\<close>

lemma reachable_flag_ignores_validateChain:
  "\<exists>st. reachable exampleMaxLen st \<and> isValid st \<and>
     validateChain exampleMaxLen (chain st) =
       Inr \<lparr>v_isValid = False, invalidBlockIndex = Some 1,
            error = Some ''Hash mismatch at block 1''\<rparr>"
proof -
  let ?st = "\<lparr>chain = [GENESIS_BLOCK, exampleBlock],
              pendingVotes = [''voterhash1'' \<mapsto> exampleBlock],
              isValid = True, lastValidated = 1700000000003\<rparr>"
  have "reachable exampleMaxLen
          (state \<lparr>state = ?st, block = exampleBlock, miningTime = 2\<rparr>)"
    by (rule reachable.added [OF reachable.created example_addVote])
  then have "reachable exampleMaxLen ?st"
    by simp
  moreover have "isValid ?st"
    by simp
  moreover have "validateChain exampleMaxLen (chain ?st) =
       Inr \<lparr>v_isValid = False, invalidBlockIndex = Some 1,
            error = Some ''Hash mismatch at block 1''\<rparr>"
    by (simp add: example_validateChain)
  ultimately show ?thesis
    by blast
qed

end
